theory Spec2Isabelle
  imports Complex_Main
begin

section \<open>The trade analyzer of pyalgotrade/stratanalyzer/trades.py\<close>

text \<open>
  The class \<open>Trades\<close> turns the stream of order updates of a broker into completed
  trades. Its three private methods are embedded here as state-passing functions:
  \<open>__updateTrades\<close> (the trade recorder), \<open>__updatePosTracker\<close> (the transition
  classifier) and \<open>__onOrderUpdate\<close> (the fill processor). Python's numbers are
  idealised: share counts are \<open>int\<close>, prices, commissions, profits and returns are
  \<open>real\<close>, so \<open>commission / float(n)\<close> is exact division.
\<close>

subsection \<open>The position tracker (external collaborator)\<close>

text \<open>
  Modelled from the spec: \<open>returns.PositionTracker\<close>, whose source is not part of
  \<open>trades.py\<close>. The interface of section 6 is followed: \<open>buy\<close> adds the quantity to
  the signed position, \<open>sell\<close> subtracts it, \<open>update\<close> rebases and leaves the shares
  alone (shares change only through buy and sell). The cost and commission basis is
  opaque in the spec; it is kept as the log of the operations applied to the tracker
  since its creation, oldest first.
\<close>

datatype trackerOp =
    Buy int real real
  | Sell int real real
  | Update real

record PositionTracker =
  shares :: int
  basis :: "trackerOp list"

definition newTracker :: PositionTracker where
  "newTracker = \<lparr>shares = 0, basis = []\<rparr>"

definition getShares :: "PositionTracker \<Rightarrow> int" where
  "getShares t = shares t"

definition buy :: "int \<Rightarrow> real \<Rightarrow> real \<Rightarrow> PositionTracker \<Rightarrow> PositionTracker" where
  "buy quantity price commission t =
     t\<lparr>shares := shares t + quantity, basis := basis t @ [Buy quantity price commission]\<rparr>"

definition sell :: "int \<Rightarrow> real \<Rightarrow> real \<Rightarrow> PositionTracker \<Rightarrow> PositionTracker" where
  "sell quantity price commission t =
     t\<lparr>shares := shares t - quantity, basis := basis t @ [Sell quantity price commission]\<rparr>"

definition update :: "real \<Rightarrow> PositionTracker \<Rightarrow> PositionTracker" where
  "update price t = t\<lparr>basis := basis t @ [Update price]\<rparr>"

text \<open>
  Modelled from the spec: \<open>getNetProfit\<close> and \<open>getReturn\<close> of the tracker. The spec
  gives their types only, so they are parameters of every function below: \<open>np t p\<close> is
  the net profit and \<open>nr t p\<close> the return the tracker \<open>t\<close> reports at mark price \<open>p\<close>.
  Any deterministic tracker is an instance, since \<open>t\<close> holds its whole history.
\<close>

type_synonym valuation = "PositionTracker \<Rightarrow> real \<Rightarrow> real"

text \<open>
  Modelled from the spec: the one property the spec states of \<open>getNetProfit\<close> and
  \<open>getReturn\<close>, whose source is missing: "profit sign and return sign always agree,
  since profit and return are derived from the same closing event". A closing event
  reads a flat tracker at the placeholder mark price 0.
\<close>

definition trackerSignsAgree :: "valuation \<Rightarrow> valuation \<Rightarrow> bool" where
  "trackerSignsAgree np nr = (\<forall>t. shares t = 0 \<longrightarrow> sgn (nr t 0) = sgn (np t 0))"

subsection \<open>Orders\<close>

text \<open>
  What \<open>__onOrderUpdate\<close> reads from an order: \<open>isFilled()\<close>, \<open>getInstrument()\<close>,
  \<open>getAction()\<close> and the price, commission and quantity of \<open>getExecutionInfo()\<close>.
  \<open>OTHER\<close> stands for every action value outside the four of \<open>broker.Order.Action\<close>.
\<close>

datatype Action = BUY | BUY_TO_COVER | SELL | SELL_SHORT | OTHER

record Order =
  isFilled :: bool
  getInstrument :: string
  getAction :: Action
  getPrice :: real
  getCommission :: real
  getQuantity :: int

subsection \<open>The analyzer state\<close>

record Trades =
  all :: "real list"
  profits :: "real list"
  losses :: "real list"
  allReturns :: "real list"
  positiveReturns :: "real list"
  negativeReturns :: "real list"
  evenTrades :: nat
  posTrackers :: "string \<rightharpoonup> PositionTracker"

definition init :: Trades where
  "init = \<lparr>all = [], profits = [], losses = [], allReturns = [], positiveReturns = [],
            negativeReturns = [], evenTrades = 0, posTrackers = Map.empty\<rparr>"

text \<open>
  Both failures of the class are Python \<open>assert\<close> statements; the two sites are told
  apart here. An abort carries the state reached when the assertion failed, since the
  mutations made before it stay in the object.
\<close>

datatype error = SharesNotZero | UnknownAction

datatype 'a result = Done 'a | Abort error 'a

fun stateOf :: "'a result \<Rightarrow> 'a" where
  "stateOf (Done s) = s"
| "stateOf (Abort e s) = s"

fun isDone :: "'a result \<Rightarrow> bool" where
  "isDone (Done s) = True"
| "isDone (Abort e s) = False"

text \<open>Sequencing of two steps: the second runs only when the first returned.\<close>

fun andThen :: "'a result \<Rightarrow> ('a \<Rightarrow> 'a result) \<Rightarrow> 'a result" where
  "andThen (Done s) f = f s"
| "andThen (Abort e s) f = Abort e s"

subsection \<open>\<open>__updateTrades\<close>: the trade recorder\<close>

text \<open>
  The tracker object is shared between the ledger and the local variable
  \<open>posTracker\<close>; the functions below pass it beside the accumulators and
  \<open>onOrderUpdate\<close> stores the final tracker back under its instrument.
\<close>

definition updateTrades ::
  "valuation \<Rightarrow> valuation \<Rightarrow> Trades \<times> PositionTracker \<Rightarrow> (Trades \<times> PositionTracker) result" where
  "updateTrades np nr st =
     (case st of (s, posTracker) \<Rightarrow>
       let price = 0 in
       if getShares posTracker \<noteq> 0 then Abort SharesNotZero (s, posTracker)
       else
         let netProfit = np posTracker price;
             netReturn = nr posTracker price;
             s1 = (if netProfit > 0 then
                     s\<lparr>profits := profits s @ [netProfit],
                       positiveReturns := positiveReturns s @ [netReturn]\<rparr>
                   else if netProfit < 0 then
                     s\<lparr>losses := losses s @ [netProfit],
                       negativeReturns := negativeReturns s @ [netReturn]\<rparr>
                   else s\<lparr>evenTrades := evenTrades s + 1\<rparr>);
             s2 = s1\<lparr>all := all s1 @ [netProfit], allReturns := allReturns s1 @ [netReturn]\<rparr>
         in Done (s2, update price posTracker))"

subsection \<open>\<open>__updatePosTracker\<close>: the transition classifier\<close>

text \<open>A tracker operation on the tracker half of the pair; it cannot fail.\<close>

definition onTracker ::
  "(PositionTracker \<Rightarrow> PositionTracker) \<Rightarrow> Trades \<times> PositionTracker \<Rightarrow> (Trades \<times> PositionTracker) result" where
  "onTracker f st = Done (fst st, f (snd st))"

definition updatePosTracker ::
  "valuation \<Rightarrow> valuation \<Rightarrow> Trades \<times> PositionTracker \<Rightarrow> real \<Rightarrow> real \<Rightarrow> int
     \<Rightarrow> (Trades \<times> PositionTracker) result" where
  "updatePosTracker np nr st price commission quantity =
     (let currentShares = getShares (snd st) in
      if currentShares > 0 then
        if quantity > 0 then onTracker (buy quantity price commission) st
        else
          let newShares = currentShares + quantity in
          if newShares = 0 then
            andThen (onTracker (sell currentShares price commission) st) (updateTrades np nr)
          else if newShares > 0 then
            onTracker (sell (quantity * -1) price commission) st
          else
            andThen (andThen
              (onTracker (sell currentShares price (commission / real_of_int currentShares)) st)
              (updateTrades np nr))
              (onTracker (sell (newShares * -1) price (commission / real_of_int (newShares * -1))))
      else if currentShares < 0 then
        if quantity < 0 then onTracker (sell (quantity * -1) price commission) st
        else
          let newShares = currentShares + quantity in
          if newShares = 0 then
            andThen (onTracker (buy (currentShares * -1) price commission) st) (updateTrades np nr)
          else if newShares < 0 then
            onTracker (buy quantity price commission) st
          else
            andThen (andThen
              (onTracker (buy (currentShares * -1) price (commission / real_of_int (currentShares * -1))) st)
              (updateTrades np nr))
              (onTracker (buy newShares price (commission / real_of_int newShares)))
      else if quantity > 0 then onTracker (buy quantity price commission) st
      else onTracker (sell (quantity * -1) price commission) st)"

subsection \<open>\<open>__onOrderUpdate\<close>: the fill processor\<close>

text \<open>The signed quantity of an order, \<open>None\<close> for an unknown action.\<close>

definition signedQuantity :: "Order \<Rightarrow> int option" where
  "signedQuantity order =
     (if getAction order \<in> {BUY, BUY_TO_COVER} then Some (getQuantity order)
      else if getAction order \<in> {SELL, SELL_SHORT} then Some (getQuantity order * -1)
      else None)"

text \<open>Storing the tracker back under its instrument, on return and on abort alike.\<close>

fun store :: "string \<Rightarrow> (Trades \<times> PositionTracker) result \<Rightarrow> Trades result" where
  "store i (Done (s, t)) = Done (s\<lparr>posTrackers := (posTrackers s)(i \<mapsto> t)\<rparr>)"
| "store i (Abort e (s, t)) = Abort e (s\<lparr>posTrackers := (posTrackers s)(i \<mapsto> t)\<rparr>)"

definition onOrderUpdate :: "valuation \<Rightarrow> valuation \<Rightarrow> Trades \<Rightarrow> Order \<Rightarrow> Trades result" where
  "onOrderUpdate np nr s order =
     (if \<not> isFilled order then Done s
      else
        let (posTracker, s1) =
              (case posTrackers s (getInstrument order) of
                 Some t \<Rightarrow> (t, s)
               | None \<Rightarrow> (newTracker,
                    s\<lparr>posTrackers := (posTrackers s)(getInstrument order \<mapsto> newTracker)\<rparr>));
            price = getPrice order;
            commission = getCommission order
        in case signedQuantity order of
             None \<Rightarrow> Abort UnknownAction s1
           | Some quantity \<Rightarrow>
               store (getInstrument order)
                 (updatePosTracker np nr (s1, posTracker) price commission quantity))"

text \<open>The broker delivers order updates one at a time; an abort ends the run.\<close>

fun processAll :: "valuation \<Rightarrow> valuation \<Rightarrow> Trades \<Rightarrow> Order list \<Rightarrow> Trades result" where
  "processAll np nr s [] = Done s"
| "processAll np nr s (order # orders) =
     andThen (onOrderUpdate np nr s order) (\<lambda>s'. processAll np nr s' orders)"

subsection \<open>Notions used to state the properties\<close>

text \<open>
  \<open>recordTrade s netProfit netReturn\<close> is the effect of the recorder on the
  accumulators, as one update; \<open>updateTrades_flat\<close> below proves that this is what
  \<open>updateTrades\<close> does on a flat tracker. \<open>tradeCount\<close> is \<open>getCount()\<close>.
\<close>

definition recordTrade :: "Trades \<Rightarrow> real \<Rightarrow> real \<Rightarrow> Trades" where
  "recordTrade s netProfit netReturn =
     (if netProfit > 0 then
        s\<lparr>all := all s @ [netProfit], profits := profits s @ [netProfit],
          allReturns := allReturns s @ [netReturn],
          positiveReturns := positiveReturns s @ [netReturn]\<rparr>
      else if netProfit < 0 then
        s\<lparr>all := all s @ [netProfit], losses := losses s @ [netProfit],
          allReturns := allReturns s @ [netReturn],
          negativeReturns := negativeReturns s @ [netReturn]\<rparr>
      else
        s\<lparr>all := all s @ [netProfit], allReturns := allReturns s @ [netReturn],
          evenTrades := evenTrades s + 1\<rparr>)"

definition tradeCount :: "Trades \<Rightarrow> nat" where
  "tradeCount s = length (all s)"

text \<open>
  Reading a log of tracker operations: the change of shares of one operation, whether
  it respects the tracker's contract (a buy or sell of a positive quantity), and the
  shares after each buy or sell (each leg) of a log run from \<open>n\<close> shares.
\<close>

fun opDelta :: "trackerOp \<Rightarrow> int" where
  "opDelta (Buy q p c) = q"
| "opDelta (Sell q p c) = - q"
| "opDelta (Update p) = 0"

fun opPositive :: "trackerOp \<Rightarrow> bool" where
  "opPositive (Buy q p c) = (q > 0)"
| "opPositive (Sell q p c) = (q > 0)"
| "opPositive (Update p) = True"

fun legShares :: "int \<Rightarrow> trackerOp list \<Rightarrow> int list" where
  "legShares n [] = []"
| "legShares n (Buy q p c # ops) = (n + q) # legShares (n + q) ops"
| "legShares n (Sell q p c # ops) = (n - q) # legShares (n - q) ops"
| "legShares n (Update p # ops) = legShares n ops"

text \<open>
  The ledger entry of an instrument, or the fresh tracker the first fill would create;
  the signed quantity of an order with a recognised action; the orders the fill
  processor is specified for; and the shares at the leg boundaries passed by the
  tracker of instrument \<open>i\<close> between two states of the analyzer.
\<close>

definition trackerOf :: "Trades \<Rightarrow> string \<Rightarrow> PositionTracker" where
  "trackerOf s i = (case posTrackers s i of Some t \<Rightarrow> t | None \<Rightarrow> newTracker)"

definition delta :: "Order \<Rightarrow> int" where
  "delta order =
     (if getAction order \<in> {BUY, BUY_TO_COVER} then getQuantity order else - getQuantity order)"

definition wellFormed :: "Order \<Rightarrow> bool" where
  "wellFormed order = (isFilled order \<and> getAction order \<noteq> OTHER \<and> getQuantity order > 0)"

definition legBoundaries :: "Trades \<Rightarrow> Trades \<Rightarrow> string \<Rightarrow> int list" where
  "legBoundaries s s' i =
     legShares (shares (trackerOf s i))
       (drop (length (basis (trackerOf s i))) (basis (trackerOf s' i)))"

text \<open>
  The leg boundaries as the inputs determine them, with no reference to what the code
  did. A fill of signed quantity \<open>q\<close> on a position of \<open>cur\<close> shares crosses 0 when
  the position is open and \<open>cur + q\<close> has the opposite sign; a crossing fill has two
  legs, with boundaries \<open>0\<close> and \<open>cur + q\<close>, every other fill has the one boundary
  \<open>cur + q\<close>. \<open>runBoundaries\<close> strings the fills of a sequence together.
\<close>

definition crosses :: "int \<Rightarrow> int \<Rightarrow> bool" where
  "crosses cur q = ((cur > 0 \<and> cur + q < 0) \<or> (cur < 0 \<and> cur + q > 0))"

definition fillBoundaries :: "int \<Rightarrow> int \<Rightarrow> int list" where
  "fillBoundaries cur q = (if crosses cur q then [0, cur + q] else [cur + q])"

fun runBoundaries :: "int \<Rightarrow> int list \<Rightarrow> int list" where
  "runBoundaries cur [] = []"
| "runBoundaries cur (q # qs) = fillBoundaries cur q @ runBoundaries (cur + q) qs"

text \<open>
  The summary of one call of the classifier that the proofs below share. A fill
  completes a trade when it takes an open position to 0 or across it; the tracker the
  recorder then reads is the one left by the closing leg.
\<close>

definition completes :: "int \<Rightarrow> int \<Rightarrow> bool" where
  "completes cur q = ((cur > 0 \<and> cur + q \<le> 0) \<or> (cur < 0 \<and> cur + q \<ge> 0))"

definition closingLeg :: "PositionTracker \<Rightarrow> real \<Rightarrow> real \<Rightarrow> int \<Rightarrow> PositionTracker" where
  "closingLeg t p c q =
     (let k = (if shares t + q = 0 then c else c / real_of_int \<bar>shares t\<bar>)
      in if shares t > 0 then sell (shares t) p k t else buy (- shares t) p k t)"

definition fillShape ::
  "valuation \<Rightarrow> valuation \<Rightarrow> Trades \<Rightarrow> PositionTracker \<Rightarrow> real \<Rightarrow> real \<Rightarrow> int \<Rightarrow> bool" where
  "fillShape np nr s t p c q =
    (\<exists>s' ops. updatePosTracker np nr (s, t) p c q
       = Done (s', t\<lparr>shares := shares t + q, basis := basis t @ ops\<rparr>)
     \<and> s' = (if completes (shares t) q
               then recordTrade s (np (closingLeg t p c q) 0) (nr (closingLeg t p c q) 0) else s)
     \<and> posTrackers s' = posTrackers s
     \<and> sum_list (map opDelta ops) = q
     \<and> legShares (shares t) ops = fillBoundaries (shares t) q
     \<and> (q \<noteq> 0 \<longrightarrow> list_all opPositive ops)
     \<and> tradeCount s' = tradeCount s + (if completes (shares t) q then 1 else 0)
     \<and> (shares t \<noteq> 0 \<or> q \<noteq> 0 \<longrightarrow>
          count_list (legShares (shares t) ops) 0 = (if completes (shares t) q then 1 else 0)))"

text \<open>The invariants of the accumulator store.\<close>

definition sameAccumulators :: "Trades \<Rightarrow> Trades \<Rightarrow> bool" where
  "sameAccumulators s s' =
     (all s' = all s \<and> profits s' = profits s \<and> losses s' = losses s
      \<and> allReturns s' = allReturns s \<and> positiveReturns s' = positiveReturns s
      \<and> negativeReturns s' = negativeReturns s \<and> evenTrades s' = evenTrades s)"

definition countInv :: "Trades \<Rightarrow> bool" where
  "countInv s =
     (length (all s) = length (profits s) + length (losses s) + evenTrades s
      \<and> length (allReturns s) = length (all s)
      \<and> length (positiveReturns s) = length (profits s)
      \<and> length (negativeReturns s) = length (losses s))"

definition profitSigns :: "Trades \<Rightarrow> bool" where
  "profitSigns s =
     (list_all (\<lambda>x. x > 0) (profits s) \<and> list_all (\<lambda>x. x < 0) (losses s))"

definition signsAgree :: "Trades \<Rightarrow> bool" where
  "signsAgree s =
     (list_all (\<lambda>x. x > 0) (profits s) \<and> list_all (\<lambda>x. x < 0) (losses s)
      \<and> list_all2 (\<lambda>p r. sgn r = sgn p) (all s) (allReturns s)
      \<and> list_all2 (\<lambda>p r. sgn r = sgn p) (profits s) (positiveReturns s)
      \<and> list_all2 (\<lambda>p r. sgn r = sgn p) (losses s) (negativeReturns s)
      \<and> list_all (\<lambda>r. r > 0) (positiveReturns s)
      \<and> list_all (\<lambda>r. r < 0) (negativeReturns s))"

text \<open>
  A sample valuation, used to run the examples: the net profit is the cash flow of the
  operations since the last rebase plus the open shares at the mark price, the return
  is that profit over a notional of 100.
\<close>

fun cashFlow :: "real \<Rightarrow> trackerOp list \<Rightarrow> real" where
  "cashFlow a [] = a"
| "cashFlow a (Buy q p c # ops) = cashFlow (a - real_of_int q * p - c) ops"
| "cashFlow a (Sell q p c # ops) = cashFlow (a + real_of_int q * p - c) ops"
| "cashFlow a (Update p # ops) = cashFlow 0 ops"

definition cashProfit :: valuation where
  "cashProfit t price = cashFlow 0 (basis t) + real_of_int (shares t) * price"

definition cashReturn :: valuation where
  "cashReturn t price = cashProfit t price / 100"

section \<open>Properties\<close>

subsection \<open>The branches of the classifier\<close>

lemma updateTrades_flat:
  "shares t = 0 \<Longrightarrow>
   updateTrades np nr (s, t) = Done (recordTrade s (np t 0) (nr t 0), update 0 t)"
  by (simp add: updateTrades_def recordTrade_def getShares_def Let_def)

lemma updateTrades_open:
  "shares t \<noteq> 0 \<Longrightarrow> updateTrades np nr (s, t) = Abort SharesNotZero (s, t)"
  by (simp add: updateTrades_def getShares_def)

lemma upt_long_add:
  "shares t > 0 \<Longrightarrow> q > 0 \<Longrightarrow>
   updatePosTracker np nr (s, t) p c q = Done (s, buy q p c t)"
  by (simp add: updatePosTracker_def onTracker_def getShares_def)

lemma upt_long_exit:
  "shares t > 0 \<Longrightarrow> shares t + q = 0 \<Longrightarrow>
   updatePosTracker np nr (s, t) p c q =
     Done (recordTrade s (np (sell (shares t) p c t) 0) (nr (sell (shares t) p c t) 0),
           update 0 (sell (shares t) p c t))"
  by (simp add: updatePosTracker_def onTracker_def getShares_def Let_def
      updateTrades_flat sell_def)

lemma upt_long_partial:
  "shares t > 0 \<Longrightarrow> q \<le> 0 \<Longrightarrow> shares t + q > 0 \<Longrightarrow>
   updatePosTracker np nr (s, t) p c q = Done (s, sell (- q) p c t)"
  by (simp add: updatePosTracker_def onTracker_def getShares_def Let_def)

lemma upt_long_flip:
  "shares t > 0 \<Longrightarrow> shares t + q < 0 \<Longrightarrow>
   updatePosTracker np nr (s, t) p c q =
     (let t1 = sell (shares t) p (c / real_of_int (shares t)) t in
      Done (recordTrade s (np t1 0) (nr t1 0),
            sell (- (shares t + q)) p (c / real_of_int (- (shares t + q))) (update 0 t1)))"
  by (simp add: updatePosTracker_def onTracker_def getShares_def Let_def
      updateTrades_flat sell_def)

lemma upt_short_add:
  "shares t < 0 \<Longrightarrow> q < 0 \<Longrightarrow>
   updatePosTracker np nr (s, t) p c q = Done (s, sell (- q) p c t)"
  by (simp add: updatePosTracker_def onTracker_def getShares_def)

lemma upt_short_exit:
  "shares t < 0 \<Longrightarrow> shares t + q = 0 \<Longrightarrow>
   updatePosTracker np nr (s, t) p c q =
     Done (recordTrade s (np (buy (- shares t) p c t) 0) (nr (buy (- shares t) p c t) 0),
           update 0 (buy (- shares t) p c t))"
  by (simp add: updatePosTracker_def onTracker_def getShares_def Let_def
      updateTrades_flat buy_def)

lemma upt_short_partial:
  "shares t < 0 \<Longrightarrow> q \<ge> 0 \<Longrightarrow> shares t + q < 0 \<Longrightarrow>
   updatePosTracker np nr (s, t) p c q = Done (s, buy q p c t)"
  by (simp add: updatePosTracker_def onTracker_def getShares_def Let_def)

lemma upt_short_flip:
  "shares t < 0 \<Longrightarrow> shares t + q > 0 \<Longrightarrow>
   updatePosTracker np nr (s, t) p c q =
     (let t1 = buy (- shares t) p (c / real_of_int (- shares t)) t in
      Done (recordTrade s (np t1 0) (nr t1 0),
            buy (shares t + q) p (c / real_of_int (shares t + q)) (update 0 t1)))"
  by (simp add: updatePosTracker_def onTracker_def getShares_def Let_def
      updateTrades_flat buy_def)

lemma upt_flat_buy:
  "shares t = 0 \<Longrightarrow> q > 0 \<Longrightarrow>
   updatePosTracker np nr (s, t) p c q = Done (s, buy q p c t)"
  by (simp add: updatePosTracker_def onTracker_def getShares_def)

lemma upt_flat_sell:
  "shares t = 0 \<Longrightarrow> q \<le> 0 \<Longrightarrow>
   updatePosTracker np nr (s, t) p c q = Done (s, sell (- q) p c t)"
  by (simp add: updatePosTracker_def onTracker_def getShares_def)

lemma legShares_append:
  "legShares n (xs @ ys) = legShares n xs @ legShares (n + sum_list (map opDelta xs)) ys"
proof (induction xs arbitrary: n)
  case Nil show ?case by simp
next
  case (Cons x xs)
  show ?case by (cases x) (simp_all add: Cons.IH algebra_simps)
qed

lemma tradeCount_recordTrade [simp]: "tradeCount (recordTrade s a b) = Suc (tradeCount s)"
  by (simp add: tradeCount_def recordTrade_def)

lemma posTrackers_recordTrade [simp]: "posTrackers (recordTrade s a b) = posTrackers s"
  by (simp add: recordTrade_def)

lemma shape_la: "shares t > 0 \<Longrightarrow> q > 0 \<Longrightarrow> fillShape np nr s t p c q"
  unfolding fillShape_def
  by (intro exI[of _ s] exI[of _ "[Buy q p c]"])
     (simp add: upt_long_add buy_def completes_def closingLeg_def fillBoundaries_def crosses_def)

lemma shape_le: "shares t > 0 \<Longrightarrow> shares t + q = 0 \<Longrightarrow> fillShape np nr s t p c q"
  unfolding fillShape_def
  by (intro exI[of _ "recordTrade s (np (sell (shares t) p c t) 0) (nr (sell (shares t) p c t) 0)"]
        exI[of _ "[Sell (shares t) p c, Update 0]"])
     (simp add: upt_long_exit sell_def update_def completes_def closingLeg_def fillBoundaries_def crosses_def)

lemma shape_lp: "shares t > 0 \<Longrightarrow> q \<le> 0 \<Longrightarrow> shares t + q > 0 \<Longrightarrow> fillShape np nr s t p c q"
  unfolding fillShape_def
  by (intro exI[of _ s] exI[of _ "[Sell (- q) p c]"])
     (simp add: upt_long_partial sell_def completes_def closingLeg_def fillBoundaries_def crosses_def)

lemma shape_lf: "shares t > 0 \<Longrightarrow> shares t + q < 0 \<Longrightarrow> fillShape np nr s t p c q"
  unfolding fillShape_def
  by (intro exI[of _ "recordTrade s (np (sell (shares t) p (c / real_of_int (shares t)) t) 0)
             (nr (sell (shares t) p (c / real_of_int (shares t)) t) 0)"]
        exI[of _ "[Sell (shares t) p (c / real_of_int (shares t)), Update 0,
                   Sell (- (shares t + q)) p (c / real_of_int (- (shares t + q)))]"])
     (simp add: upt_long_flip sell_def update_def completes_def closingLeg_def fillBoundaries_def crosses_def Let_def)

lemma shape_sa: "shares t < 0 \<Longrightarrow> q < 0 \<Longrightarrow> fillShape np nr s t p c q"
  unfolding fillShape_def
  by (intro exI[of _ s] exI[of _ "[Sell (- q) p c]"])
     (simp add: upt_short_add sell_def completes_def closingLeg_def fillBoundaries_def crosses_def)

lemma shape_se: "shares t < 0 \<Longrightarrow> shares t + q = 0 \<Longrightarrow> fillShape np nr s t p c q"
  unfolding fillShape_def
  by (intro exI[of _ "recordTrade s (np (buy (- shares t) p c t) 0) (nr (buy (- shares t) p c t) 0)"]
        exI[of _ "[Buy (- shares t) p c, Update 0]"])
     (simp add: upt_short_exit buy_def update_def completes_def closingLeg_def fillBoundaries_def crosses_def)

lemma shape_sp: "shares t < 0 \<Longrightarrow> q \<ge> 0 \<Longrightarrow> shares t + q < 0 \<Longrightarrow> fillShape np nr s t p c q"
  unfolding fillShape_def
  by (intro exI[of _ s] exI[of _ "[Buy q p c]"])
     (simp add: upt_short_partial buy_def completes_def closingLeg_def fillBoundaries_def crosses_def)

lemma shape_sf: "shares t < 0 \<Longrightarrow> shares t + q > 0 \<Longrightarrow> fillShape np nr s t p c q"
  unfolding fillShape_def
  by (intro exI[of _ "recordTrade s (np (buy (- shares t) p (c / real_of_int (- shares t)) t) 0)
             (nr (buy (- shares t) p (c / real_of_int (- shares t)) t) 0)"]
        exI[of _ "[Buy (- shares t) p (c / real_of_int (- shares t)), Update 0,
                   Buy (shares t + q) p (c / real_of_int (shares t + q))]"])
     (simp add: upt_short_flip buy_def update_def completes_def closingLeg_def fillBoundaries_def crosses_def Let_def)

lemma shape_fb: "shares t = 0 \<Longrightarrow> q > 0 \<Longrightarrow> fillShape np nr s t p c q"
  unfolding fillShape_def
  by (intro exI[of _ s] exI[of _ "[Buy q p c]"])
     (simp add: upt_flat_buy buy_def completes_def closingLeg_def fillBoundaries_def crosses_def)

lemma shape_fs: "shares t = 0 \<Longrightarrow> q \<le> 0 \<Longrightarrow> fillShape np nr s t p c q"
  unfolding fillShape_def
  by (intro exI[of _ s] exI[of _ "[Sell (- q) p c]"])
     (auto simp add: upt_flat_sell sell_def completes_def closingLeg_def fillBoundaries_def crosses_def)

lemma upt_shape: "fillShape np nr s t p c q"
proof (cases "shares t > 0")
  case long: True
  show ?thesis
  proof (cases "q > 0")
    case True
    with long show ?thesis by (rule shape_la)
  next
    case nq: False
    show ?thesis
    proof (cases "shares t + q = 0")
      case True
      with long show ?thesis by (rule shape_le)
    next
      case nz: False
      show ?thesis
      proof (cases "shares t + q > 0")
        case True
        from nq have "q \<le> 0" by simp
        with long show ?thesis using True by (rule shape_lp)
      next
        case False
        with nz have "shares t + q < 0" by simp
        with long show ?thesis by (rule shape_lf)
      qed
    qed
  qed
next
  case nl: False
  show ?thesis
  proof (cases "shares t < 0")
    case short: True
    show ?thesis
    proof (cases "q < 0")
      case True
      with short show ?thesis by (rule shape_sa)
    next
      case nq: False
      show ?thesis
      proof (cases "shares t + q = 0")
        case True
        with short show ?thesis by (rule shape_se)
      next
        case nz: False
        show ?thesis
        proof (cases "shares t + q < 0")
          case True
          from nq have "q \<ge> 0" by simp
          with short show ?thesis using True by (rule shape_sp)
        next
          case False
          with nz have "shares t + q > 0" by simp
          with short show ?thesis by (rule shape_sf)
        qed
      qed
    qed
  next
    case False
    with nl have flat: "shares t = 0" by simp
    show ?thesis
    proof (cases "q > 0")
      case True
      with flat show ?thesis by (rule shape_fb)
    next
      case False
      then have "q \<le> 0" by simp
      with flat show ?thesis by (rule shape_fs)
    qed
  qed
qed

lemma signedQuantity_known:
  "getAction order \<noteq> OTHER \<Longrightarrow> signedQuantity order = Some (delta order)"
  by (cases "getAction order") (simp_all add: signedQuantity_def delta_def)

lemma signedQuantity_other:
  "getAction order = OTHER \<Longrightarrow> signedQuantity order = None"
  by (simp add: signedQuantity_def)

lemma onOrderUpdate_filled:
  "isFilled order \<Longrightarrow> getAction order \<noteq> OTHER \<Longrightarrow>
   onOrderUpdate np nr s order =
     store (getInstrument order)
       (updatePosTracker np nr
          (s\<lparr>posTrackers := (posTrackers s)(getInstrument order \<mapsto> trackerOf s (getInstrument order))\<rparr>,
           trackerOf s (getInstrument order))
          (getPrice order) (getCommission order) (delta order))"
  by (cases "posTrackers s (getInstrument order)")
     (simp_all add: onOrderUpdate_def signedQuantity_known trackerOf_def fun_upd_idem)

lemma onOrder_shape:
  assumes "isFilled order" "getAction order \<noteq> OTHER"
  shows "\<exists>s' ops. onOrderUpdate np nr s order = Done s'
     \<and> posTrackers s' = (posTrackers s)(getInstrument order \<mapsto>
          (trackerOf s (getInstrument order))
            \<lparr>shares := shares (trackerOf s (getInstrument order)) + delta order,
             basis := basis (trackerOf s (getInstrument order)) @ ops\<rparr>)
     \<and> sum_list (map opDelta ops) = delta order
     \<and> legShares (shares (trackerOf s (getInstrument order))) ops
          = fillBoundaries (shares (trackerOf s (getInstrument order))) (delta order)
     \<and> (delta order \<noteq> 0 \<longrightarrow> list_all opPositive ops)
     \<and> tradeCount s' = tradeCount s
          + (if completes (shares (trackerOf s (getInstrument order))) (delta order) then 1 else 0)
     \<and> (shares (trackerOf s (getInstrument order)) \<noteq> 0 \<or> delta order \<noteq> 0 \<longrightarrow>
          count_list (legShares (shares (trackerOf s (getInstrument order))) ops) 0
            = (if completes (shares (trackerOf s (getInstrument order))) (delta order) then 1 else 0))"
proof -
  let ?i = "getInstrument order"
  let ?t = "trackerOf s ?i"
  let ?s1 = "s\<lparr>posTrackers := (posTrackers s)(?i \<mapsto> ?t)\<rparr>"
  have "fillShape np nr ?s1 ?t (getPrice order) (getCommission order) (delta order)"
    by (rule upt_shape)
  then obtain s2 ops where
    run: "updatePosTracker np nr (?s1, ?t) (getPrice order) (getCommission order) (delta order)
            = Done (s2, ?t\<lparr>shares := shares ?t + delta order, basis := basis ?t @ ops\<rparr>)"
    and pt: "posTrackers s2 = posTrackers ?s1"
    and sm: "sum_list (map opDelta ops) = delta order"
    and fb: "legShares (shares ?t) ops = fillBoundaries (shares ?t) (delta order)"
    and po: "delta order \<noteq> 0 \<longrightarrow> list_all opPositive ops"
    and tc: "tradeCount s2 = tradeCount ?s1 + (if completes (shares ?t) (delta order) then 1 else 0)"
    and cl: "shares ?t \<noteq> 0 \<or> delta order \<noteq> 0 \<longrightarrow>
          count_list (legShares (shares ?t) ops) 0 = (if completes (shares ?t) (delta order) then 1 else 0)"
    unfolding fillShape_def by blast
  let ?s' = "s2\<lparr>posTrackers := (posTrackers s2)(?i \<mapsto>
               ?t\<lparr>shares := shares ?t + delta order, basis := basis ?t @ ops\<rparr>)\<rparr>"
  have "onOrderUpdate np nr s order = Done ?s'"
    by (simp add: onOrderUpdate_filled[OF assms] run)
  moreover have "posTrackers ?s' = (posTrackers s)(?i \<mapsto>
       ?t\<lparr>shares := shares ?t + delta order, basis := basis ?t @ ops\<rparr>)"
    by (simp add: pt)
  moreover have "tradeCount ?s' = tradeCount s + (if completes (shares ?t) (delta order) then 1 else 0)"
    using tc by (simp add: tradeCount_def)
  ultimately show ?thesis using sm fb po cl by blast
qed

lemma count_list_app: "count_list (xs @ ys) a = count_list xs a + count_list ys a"
  by (induction xs) simp_all

lemma wellFormed_delta: "wellFormed order \<Longrightarrow> delta order \<noteq> 0"
  by (auto simp: wellFormed_def delta_def)

lemma processAll_shape:
  assumes "\<forall>order\<in>set orders. wellFormed order \<and> getInstrument order = i"
  shows "\<exists>s' ops. processAll np nr s orders = Done s'
     \<and> trackerOf s' i = (trackerOf s i)
          \<lparr>shares := shares (trackerOf s i) + sum_list (map delta orders),
           basis := basis (trackerOf s i) @ ops\<rparr>
     \<and> list_all opPositive ops
     \<and> legShares (shares (trackerOf s i)) ops
          = runBoundaries (shares (trackerOf s i)) (map delta orders)
     \<and> tradeCount s' = tradeCount s + count_list (legShares (shares (trackerOf s i)) ops) 0"
  using assms
proof (induction orders arbitrary: s)
  case Nil
  show ?case by (intro exI[of _ s] exI[of _ "[]"]) simp
next
  case (Cons order orders)
  let ?t = "trackerOf s i"
  from Cons.prems have wf: "wellFormed order" and inst: "getInstrument order = i"
    and rest: "\<forall>order\<in>set orders. wellFormed order \<and> getInstrument order = i"
    by simp_all
  from wf have fl: "isFilled order" and act: "getAction order \<noteq> OTHER"
    by (simp_all add: wellFormed_def)
  from onOrder_shape[OF fl act, of np nr s] inst obtain s1 ops1 where
    run1: "onOrderUpdate np nr s order = Done s1"
    and pt1: "posTrackers s1 = (posTrackers s)(i \<mapsto>
          ?t\<lparr>shares := shares ?t + delta order, basis := basis ?t @ ops1\<rparr>)"
    and sm1: "sum_list (map opDelta ops1) = delta order"
    and fb1: "legShares (shares ?t) ops1 = fillBoundaries (shares ?t) (delta order)"
    and po1: "delta order \<noteq> 0 \<longrightarrow> list_all opPositive ops1"
    and cl1: "shares ?t \<noteq> 0 \<or> delta order \<noteq> 0 \<longrightarrow>
          count_list (legShares (shares ?t) ops1) 0
            = (if completes (shares ?t) (delta order) then 1 else 0)"
    and tc1: "tradeCount s1 = tradeCount s + (if completes (shares ?t) (delta order) then 1 else 0)"
    by blast
  from cl1 tc1 wellFormed_delta[OF wf]
  have tc1': "tradeCount s1 = tradeCount s + count_list (legShares (shares ?t) ops1) 0"
    by simp
  have t1: "trackerOf s1 i = ?t\<lparr>shares := shares ?t + delta order, basis := basis ?t @ ops1\<rparr>"
    by (simp add: trackerOf_def pt1)
  from Cons.IH[OF rest, of s1] obtain s' ops2 where
    run2: "processAll np nr s1 orders = Done s'"
    and t2: "trackerOf s' i = (trackerOf s1 i)
          \<lparr>shares := shares (trackerOf s1 i) + sum_list (map delta orders),
           basis := basis (trackerOf s1 i) @ ops2\<rparr>"
    and po2: "list_all opPositive ops2"
    and rb2: "legShares (shares (trackerOf s1 i)) ops2
          = runBoundaries (shares (trackerOf s1 i)) (map delta orders)"
    and tc2: "tradeCount s' = tradeCount s1 + count_list (legShares (shares (trackerOf s1 i)) ops2) 0"
    by blast
  have "processAll np nr s (order # orders) = Done s'"
    by (simp add: run1 run2)
  moreover have "trackerOf s' i = ?t\<lparr>shares := shares ?t + sum_list (map delta (order # orders)),
           basis := basis ?t @ (ops1 @ ops2)\<rparr>"
    by (simp add: t2 t1 add.assoc)
  moreover have "tradeCount s' = tradeCount s + count_list (legShares (shares ?t) (ops1 @ ops2)) 0"
    by (simp add: tc2 tc1' t1 legShares_append count_list_app sm1)
  moreover have "list_all opPositive (ops1 @ ops2)"
    using po1 po2 wellFormed_delta[OF wf] by simp
  moreover have "legShares (shares ?t) (ops1 @ ops2)
      = runBoundaries (shares ?t) (map delta (order # orders))"
    using rb2 by (simp add: legShares_append sm1 fb1 t1)
  ultimately show ?case by blast
qed

text \<open>
  The tracker's contract is respected: over well-formed filled orders of an instrument,
  every buy and sell issued to its tracker has a positive quantity.
\<close>

lemma issued_quantities_positive:
  assumes "\<forall>order\<in>set orders. wellFormed order \<and> getInstrument order = i"
  shows "list_all opPositive
           (drop (length (basis (trackerOf s i)))
              (basis (trackerOf (stateOf (processAll np nr s orders)) i)))"
proof -
  from processAll_shape[OF assms, of np nr s] obtain s' ops where
    "processAll np nr s orders = Done s'"
    and "trackerOf s' i = (trackerOf s i)
          \<lparr>shares := shares (trackerOf s i) + sum_list (map delta orders),
           basis := basis (trackerOf s i) @ ops\<rparr>"
    and "list_all opPositive ops"
    by blast
  then show ?thesis by simp
qed

lemma closingLeg_flat: "shares (closingLeg t p c q) = 0"
  by (simp add: closingLeg_def sell_def buy_def Let_def)

lemma sameAccumulators_refl [simp]: "sameAccumulators s s"
  by (simp add: sameAccumulators_def)

lemma sameAccumulators_posTrackers [simp]:
  "sameAccumulators s (s'\<lparr>posTrackers := m\<rparr>) = sameAccumulators s s'"
  "sameAccumulators (s\<lparr>posTrackers := m\<rparr>) s' = sameAccumulators s s'"
  by (simp_all add: sameAccumulators_def)

lemma recordTrade_posTrackers:
  "recordTrade (s\<lparr>posTrackers := m\<rparr>) a b = (recordTrade s a b)\<lparr>posTrackers := m\<rparr>"
  by (simp add: recordTrade_def)

text \<open>Every order update leaves the accumulators alone or records one trade of a flat tracker\<close>

lemma onOrderUpdate_accumulators:
  "sameAccumulators s (stateOf (onOrderUpdate np nr s order))
   \<or> (\<exists>t1. shares t1 = 0
        \<and> sameAccumulators (recordTrade s (np t1 0) (nr t1 0)) (stateOf (onOrderUpdate np nr s order)))"
proof (cases "isFilled order")
  case False
  then show ?thesis by (simp add: onOrderUpdate_def)
next
  case fl: True
  show ?thesis
  proof (cases "getAction order = OTHER")
    case True
    with fl show ?thesis
      by (cases "posTrackers s (getInstrument order)")
         (simp_all add: onOrderUpdate_def signedQuantity_other)
  next
    case act: False
    let ?i = "getInstrument order"
    let ?t = "trackerOf s ?i"
    let ?s1 = "s\<lparr>posTrackers := (posTrackers s)(?i \<mapsto> ?t)\<rparr>"
    let ?p = "getPrice order" and ?c = "getCommission order" and ?q = "delta order"
    have "fillShape np nr ?s1 ?t ?p ?c ?q" by (rule upt_shape)
    then obtain s2 t2 where
      run: "updatePosTracker np nr (?s1, ?t) ?p ?c ?q = Done (s2, t2)"
      and s2: "s2 = (if completes (shares ?t) ?q
               then recordTrade ?s1 (np (closingLeg ?t ?p ?c ?q) 0) (nr (closingLeg ?t ?p ?c ?q) 0)
               else ?s1)"
      unfolding fillShape_def by blast
    have st: "stateOf (onOrderUpdate np nr s order) = s2\<lparr>posTrackers := (posTrackers s2)(?i \<mapsto> t2)\<rparr>"
      by (simp add: onOrderUpdate_filled[OF fl act] run)
    show ?thesis
    proof (cases "completes (shares ?t) ?q")
      case False
      with s2 st show ?thesis by simp
    next
      case True
      with s2 st have "sameAccumulators
          (recordTrade s (np (closingLeg ?t ?p ?c ?q) 0) (nr (closingLeg ?t ?p ?c ?q) 0))
          (stateOf (onOrderUpdate np nr s order))"
        by (simp add: recordTrade_posTrackers)
      with closingLeg_flat[of ?t ?p ?c ?q] show ?thesis by blast
    qed
  qed
qed

lemma onOrderUpdate_outcome:
  "onOrderUpdate np nr s order = Done (stateOf (onOrderUpdate np nr s order))
   \<or> (isFilled order \<and> getAction order = OTHER
        \<and> onOrderUpdate np nr s order = Abort UnknownAction (stateOf (onOrderUpdate np nr s order)))"
proof (cases "isFilled order")
  case False
  then show ?thesis by (simp add: onOrderUpdate_def)
next
  case fl: True
  show ?thesis
  proof (cases "getAction order = OTHER")
    case True
    with fl show ?thesis
      by (cases "posTrackers s (getInstrument order)")
         (simp_all add: onOrderUpdate_def signedQuantity_other)
  next
    case False
    from onOrder_shape[OF fl False, of np nr s] show ?thesis by auto
  qed
qed

lemma countInv_same: "sameAccumulators s s' \<Longrightarrow> countInv s' = countInv s"
  by (simp add: sameAccumulators_def countInv_def)

lemma countInv_recordTrade: "countInv s \<Longrightarrow> countInv (recordTrade s a b)"
  by (simp add: countInv_def recordTrade_def)

lemma countInv_onOrderUpdate:
  "countInv s \<Longrightarrow> countInv (stateOf (onOrderUpdate np nr s order))"
  using onOrderUpdate_accumulators[of s np nr order]
  by (auto simp: countInv_same countInv_recordTrade)

lemma countInv_processAll:
  "countInv s \<Longrightarrow> countInv (stateOf (processAll np nr s orders))"
proof (induction orders arbitrary: s)
  case Nil
  then show ?case by simp
next
  case (Cons order orders)
  from Cons.prems have inv1: "countInv (stateOf (onOrderUpdate np nr s order))"
    by (rule countInv_onOrderUpdate)
  show ?case
  proof (cases "onOrderUpdate np nr s order")
    case (Done s1)
    with inv1 have "countInv s1" by simp
    from Cons.IH[OF this] Done show ?thesis by simp
  next
    case (Abort e s1)
    with inv1 show ?thesis by simp
  qed
qed

subsection \<open>Count conservation\<close>

text \<open>
  Claim C3. After every processed fill of any sequence of order updates, starting from
  the fresh analyzer, the accumulators satisfy
  \<open>len(all) = len(profits) + len(losses) + evenTrades = len(allReturns)\<close>,
  \<open>len(positiveReturns) = len(profits)\<close> and \<open>len(negativeReturns) = len(losses)\<close>.
  The state after the first \<open>k\<close> updates is the state of the run on \<open>take k orders\<close>;
  a run that aborts keeps the state it aborted in.
\<close>

theorem count_conservation:
  "countInv (stateOf (processAll np nr init (take k orders)))"
  by (rule countInv_processAll) (simp add: countInv_def init_def)

subsection \<open>Orders that are not filled\<close>

text \<open>
  Claim C7. An order update whose order is not filled returns with the analyzer state
  unchanged: no ledger entry is created, no tracker is touched and every accumulator
  is as before.
\<close>

theorem unfilled_order_is_noop:
  "\<not> isFilled order \<Longrightarrow> onOrderUpdate np nr s order = Done s"
  by (simp add: onOrderUpdate_def)

theorem unfilled_order_is_noop_witness:
  "\<not> isFilled \<lparr>isFilled = False, getInstrument = ''XYZ'', getAction = BUY, getPrice = 10,
        getCommission = 1, getQuantity = 5\<rparr>
   \<and> posTrackers init ''XYZ'' = None
   \<and> onOrderUpdate cashProfit cashReturn init
        \<lparr>isFilled = False, getInstrument = ''XYZ'', getAction = BUY, getPrice = 10,
         getCommission = 1, getQuantity = 5\<rparr> = Done init"
  using unfilled_order_is_noop[of "\<lparr>isFilled = False, getInstrument = ''XYZ'', getAction = BUY,
        getPrice = 10, getCommission = 1, getQuantity = 5\<rparr>" cashProfit cashReturn init]
  by (simp add: init_def)

subsection \<open>Unknown actions\<close>

lemma onOrderUpdate_other:
  "isFilled order \<Longrightarrow> getAction order = OTHER \<Longrightarrow>
   onOrderUpdate np nr s order =
     Abort UnknownAction
       (case posTrackers s (getInstrument order) of
          Some t \<Rightarrow> s
        | None \<Rightarrow> s\<lparr>posTrackers := (posTrackers s)(getInstrument order \<mapsto> newTracker)\<rparr>)"
  by (cases "posTrackers s (getInstrument order)")
     (simp_all add: onOrderUpdate_def signedQuantity_other)

text \<open>
  Claim C6. A filled order whose action is none of the four recognised ones aborts the
  processing (the \<open>assert(False)\<close> of \<open>__onOrderUpdate\<close>), the run stops there, and in the
  state of the abort the seven accumulators are what they were before the event.
\<close>

theorem unknown_action_aborts:
  assumes "isFilled order" and "getAction order = OTHER"
  shows "\<exists>s'. onOrderUpdate np nr s order = Abort UnknownAction s'
     \<and> processAll np nr s (order # orders) = Abort UnknownAction s'
     \<and> all s' = all s \<and> profits s' = profits s \<and> losses s' = losses s
     \<and> allReturns s' = allReturns s \<and> positiveReturns s' = positiveReturns s
     \<and> negativeReturns s' = negativeReturns s \<and> evenTrades s' = evenTrades s"
  by (cases "posTrackers s (getInstrument order)")
     (simp_all add: onOrderUpdate_other[OF assms])

theorem unknown_action_aborts_witness:
  "isFilled \<lparr>isFilled = True, getInstrument = ''XYZ'', getAction = OTHER, getPrice = 10,
        getCommission = 1, getQuantity = 5\<rparr>
   \<and> getAction \<lparr>isFilled = True, getInstrument = ''XYZ'', getAction = OTHER, getPrice = 10,
        getCommission = 1, getQuantity = 5\<rparr> = OTHER
   \<and> (\<exists>s'. onOrderUpdate cashProfit cashReturn init
          \<lparr>isFilled = True, getInstrument = ''XYZ'', getAction = OTHER, getPrice = 10,
           getCommission = 1, getQuantity = 5\<rparr> = Abort UnknownAction s'
        \<and> all s' = [] \<and> profits s' = [] \<and> losses s' = [] \<and> allReturns s' = []
        \<and> positiveReturns s' = [] \<and> negativeReturns s' = [] \<and> evenTrades s' = 0)"
  using unknown_action_aborts[of "\<lparr>isFilled = True, getInstrument = ''XYZ'', getAction = OTHER,
        getPrice = 10, getCommission = 1, getQuantity = 5\<rparr>" cashProfit cashReturn init "[]"]
  by (auto simp: init_def)

text \<open>
  Claim C9. For a filled order with an unrecognised action on an instrument the ledger
  does not hold yet, the fresh tracker is stored in the ledger before the action is
  checked: the state of the abort differs from the state before the event by exactly
  that entry, a tracker with no shares and no operation applied, while the
  accumulators are untouched.
\<close>

theorem unknown_action_creates_ledger_entry:
  assumes "isFilled order" and "getAction order = OTHER"
    and "posTrackers s (getInstrument order) = None"
  shows "onOrderUpdate np nr s order =
           Abort UnknownAction (s\<lparr>posTrackers := (posTrackers s)(getInstrument order \<mapsto> newTracker)\<rparr>)
     \<and> posTrackers (stateOf (onOrderUpdate np nr s order)) (getInstrument order) = Some newTracker
     \<and> shares newTracker = 0 \<and> basis newTracker = []
     \<and> stateOf (onOrderUpdate np nr s order) \<noteq> s
     \<and> sameAccumulators s (stateOf (onOrderUpdate np nr s order))"
proof -
  let ?s' = "s\<lparr>posTrackers := (posTrackers s)(getInstrument order \<mapsto> newTracker)\<rparr>"
  have run: "onOrderUpdate np nr s order = Abort UnknownAction ?s'"
    by (simp add: onOrderUpdate_other[OF assms(1,2)] assms(3))
  have "?s' \<noteq> s"
  proof
    assume "?s' = s"
    from arg_cong[OF this, of posTrackers]
    have "(posTrackers s)(getInstrument order \<mapsto> newTracker) = posTrackers s" by simp
    from fun_cong[OF this, of "getInstrument order"] assms(3) show False by simp
  qed
  with run show ?thesis by (simp add: newTracker_def)
qed

theorem unknown_action_creates_ledger_entry_witness:
  "isFilled \<lparr>isFilled = True, getInstrument = ''XYZ'', getAction = OTHER, getPrice = 10,
        getCommission = 1, getQuantity = 5\<rparr>
   \<and> posTrackers init ''XYZ'' = None
   \<and> onOrderUpdate cashProfit cashReturn init
        \<lparr>isFilled = True, getInstrument = ''XYZ'', getAction = OTHER, getPrice = 10,
         getCommission = 1, getQuantity = 5\<rparr>
       = Abort UnknownAction (init\<lparr>posTrackers := [''XYZ'' \<mapsto> \<lparr>shares = 0, basis = []\<rparr>]\<rparr>)
   \<and> init\<lparr>posTrackers := [''XYZ'' \<mapsto> \<lparr>shares = 0, basis = []\<rparr>]\<rparr> \<noteq> init"
  using unknown_action_creates_ledger_entry[of "\<lparr>isFilled = True, getInstrument = ''XYZ'',
        getAction = OTHER, getPrice = 10, getCommission = 1, getQuantity = 5\<rparr>"
        init cashProfit cashReturn]
  by (simp add: init_def newTracker_def)

subsection \<open>Classification of a completed trade\<close>

text \<open>
  Claim C10. Whether the return of a completed trade enters \<open>positiveReturns\<close> or
  \<open>negativeReturns\<close> is decided by the sign of the net profit alone. The return is
  always appended to \<open>allReturns\<close>; when the net profit is 0 the even counter goes up
  by one and neither \<open>positiveReturns\<close> nor \<open>negativeReturns\<close> changes, whatever the
  return is.
\<close>

theorem return_membership_follows_profit:
  assumes "getShares t = 0"
  shows "\<exists>s'. updateTrades np nr (s, t) = Done (s', update 0 t)
     \<and> allReturns s' = allReturns s @ [nr t 0]
     \<and> all s' = all s @ [np t 0]
     \<and> positiveReturns s' = (if np t 0 > 0 then positiveReturns s @ [nr t 0] else positiveReturns s)
     \<and> negativeReturns s' = (if np t 0 < 0 then negativeReturns s @ [nr t 0] else negativeReturns s)
     \<and> evenTrades s' = (if np t 0 = 0 then evenTrades s + 1 else evenTrades s)
     \<and> (np t 0 = 0 \<longrightarrow> evenTrades s' = evenTrades s + 1
           \<and> positiveReturns s' = positiveReturns s \<and> negativeReturns s' = negativeReturns s
           \<and> profits s' = profits s \<and> losses s' = losses s)"
  using assms by (simp add: updateTrades_def Let_def)

theorem return_membership_follows_profit_witness:
  "getShares newTracker = 0
   \<and> (\<exists>s'. updateTrades (\<lambda>t p. 0) (\<lambda>t p. 1 / 2) (init, newTracker) = Done (s', update 0 newTracker)
        \<and> allReturns s' = [1 / 2] \<and> all s' = [0] \<and> evenTrades s' = 1
        \<and> positiveReturns s' = [] \<and> negativeReturns s' = [])"
  using return_membership_follows_profit[of newTracker "\<lambda>t p. 0" "\<lambda>t p. 1 / 2" init]
  by (auto simp: init_def newTracker_def getShares_def)

subsection \<open>The assertion of the recorder\<close>

lemma processAll_outcome:
  "processAll np nr s orders = Done (stateOf (processAll np nr s orders))
   \<or> ((\<exists>order\<in>set orders. isFilled order \<and> getAction order = OTHER)
        \<and> processAll np nr s orders
            = Abort UnknownAction (stateOf (processAll np nr s orders)))"
proof (induction orders arbitrary: s)
  case Nil
  show ?case by simp
next
  case (Cons order orders)
  from onOrderUpdate_outcome[of np nr s order] show ?case
  proof
    assume d: "onOrderUpdate np nr s order = Done (stateOf (onOrderUpdate np nr s order))"
    from Cons.IH[of "stateOf (onOrderUpdate np nr s order)"] show ?thesis
    proof
      assume "processAll np nr (stateOf (onOrderUpdate np nr s order)) orders
        = Done (stateOf (processAll np nr (stateOf (onOrderUpdate np nr s order)) orders))"
      with d have "processAll np nr s (order # orders)
          = Done (stateOf (processAll np nr s (order # orders)))"
        by (metis andThen.simps(1) processAll.simps(2))
      then show ?thesis by blast
    next
      assume a: "(\<exists>order\<in>set orders. isFilled order \<and> getAction order = OTHER)
        \<and> processAll np nr (stateOf (onOrderUpdate np nr s order)) orders
          = Abort UnknownAction (stateOf (processAll np nr (stateOf (onOrderUpdate np nr s order)) orders))"
      with d have "processAll np nr s (order # orders)
          = Abort UnknownAction (stateOf (processAll np nr s (order # orders)))"
        by (metis andThen.simps(1) processAll.simps(2))
      with a show ?thesis by auto
    qed
  next
    assume a: "isFilled order \<and> getAction order = OTHER
        \<and> onOrderUpdate np nr s order = Abort UnknownAction (stateOf (onOrderUpdate np nr s order))"
    then have "processAll np nr s (order # orders)
          = Abort UnknownAction (stateOf (processAll np nr s (order # orders)))"
      by (metis andThen.simps(2) processAll.simps(2))
    with a show ?thesis by auto
  qed
qed

text \<open>
  Claim C5. The recorder fails its assertion exactly when the tracker it is given has
  shares other than 0, and on the call path of the fill processor this never happens:
  one call of the classifier always returns, no run over any list of order updates
  aborts at the recorder, and a run over well-formed filled orders returns.
\<close>

theorem recorder_assertion_unreachable:
  "(updateTrades np nr (s0, t0) = Abort SharesNotZero (s0, t0) \<longleftrightarrow> getShares t0 \<noteq> 0)
   \<and> isDone (updateTrades np nr (s0, t0)) = (getShares t0 = 0)
   \<and> isDone (updatePosTracker np nr (s, t) p c q)
   \<and> (\<forall>s'. processAll np nr s orders \<noteq> Abort SharesNotZero s')
   \<and> ((\<forall>order\<in>set orders. wellFormed order) \<longrightarrow> isDone (processAll np nr s orders))"
proof -
  have a: "updateTrades np nr (s0, t0) = Abort SharesNotZero (s0, t0) \<longleftrightarrow> getShares t0 \<noteq> 0"
    by (simp add: updateTrades_def Let_def)
  have b: "isDone (updateTrades np nr (s0, t0)) = (getShares t0 = 0)"
    by (simp add: updateTrades_def Let_def)
  have c: "isDone (updatePosTracker np nr (s, t) p c q)"
    using upt_shape[of np nr s t p c q] unfolding fillShape_def by auto
  have d: "\<forall>s'. processAll np nr s orders \<noteq> Abort SharesNotZero s'"
    using processAll_outcome[of np nr s orders] by auto
  have e: "(\<forall>order\<in>set orders. wellFormed order) \<longrightarrow> isDone (processAll np nr s orders)"
  proof
    assume wf: "\<forall>order\<in>set orders. wellFormed order"
    from processAll_outcome[of np nr s orders] show "isDone (processAll np nr s orders)"
    proof
      assume "processAll np nr s orders = Done (stateOf (processAll np nr s orders))"
      then show ?thesis by (metis isDone.simps(1))
    next
      assume "(\<exists>order\<in>set orders. isFilled order \<and> getAction order = OTHER)
        \<and> processAll np nr s orders = Abort UnknownAction (stateOf (processAll np nr s orders))"
      with wf show ?thesis by (auto simp: wellFormed_def)
    qed
  qed
  from a b c d e show ?thesis by blast
qed

theorem recorder_assertion_unreachable_witness:
  "wellFormed \<lparr>isFilled = True, getInstrument = ''XYZ'', getAction = BUY, getPrice = 5,
          getCommission = 1, getQuantity = 10\<rparr>
   \<and> wellFormed \<lparr>isFilled = True, getInstrument = ''XYZ'', getAction = SELL, getPrice = 7,
          getCommission = 3, getQuantity = 15\<rparr>
   \<and> isDone (processAll cashProfit cashReturn init
       [\<lparr>isFilled = True, getInstrument = ''XYZ'', getAction = BUY, getPrice = 5,
          getCommission = 1, getQuantity = 10\<rparr>,
        \<lparr>isFilled = True, getInstrument = ''XYZ'', getAction = SELL, getPrice = 7,
          getCommission = 3, getQuantity = 15\<rparr>])
   \<and> getShares \<lparr>shares = 4, basis = []\<rparr> \<noteq> 0
   \<and> updateTrades cashProfit cashReturn (init, \<lparr>shares = 4, basis = []\<rparr>)
       = Abort SharesNotZero (init, \<lparr>shares = 4, basis = []\<rparr>)"
  using recorder_assertion_unreachable[of cashProfit cashReturn init "\<lparr>shares = 4, basis = []\<rparr>"
     init newTracker 0 0 0
     "[\<lparr>isFilled = True, getInstrument = ''XYZ'', getAction = BUY, getPrice = 5,
          getCommission = 1, getQuantity = 10\<rparr>,
        \<lparr>isFilled = True, getInstrument = ''XYZ'', getAction = SELL, getPrice = 7,
          getCommission = 3, getQuantity = 15\<rparr>]"]
  by (simp add: wellFormed_def getShares_def)

subsection \<open>From flat to flat\<close>

text \<open>
  Claim C8. From a ledger in which the instrument is absent or flat, a filled buy of
  \<open>N > 0\<close> shares followed by a filled sell of \<open>N\<close> shares of the same instrument, at
  any prices and commissions, returns, records exactly one trade and leaves the
  instrument's tracker in the ledger with 0 shares.
\<close>

theorem flat_to_flat:
  assumes "N > 0" and "shares (trackerOf s i) = 0"
    and "b \<in> {BUY, BUY_TO_COVER}" and "sl \<in> {SELL, SELL_SHORT}"
  shows "\<exists>s' t'. processAll np nr s
            [\<lparr>isFilled = True, getInstrument = i, getAction = b, getPrice = p1,
              getCommission = c1, getQuantity = N\<rparr>,
             \<lparr>isFilled = True, getInstrument = i, getAction = sl, getPrice = p2,
              getCommission = c2, getQuantity = N\<rparr>] = Done s'
     \<and> tradeCount s' = tradeCount s + 1
     \<and> posTrackers s' i = Some t' \<and> getShares t' = 0"
proof -
  let ?o1 = "\<lparr>isFilled = True, getInstrument = i, getAction = b, getPrice = p1,
              getCommission = c1, getQuantity = N\<rparr>"
  let ?o2 = "\<lparr>isFilled = True, getInstrument = i, getAction = sl, getPrice = p2,
              getCommission = c2, getQuantity = N\<rparr>"
  let ?t = "trackerOf s i"
  have f1: "isFilled ?o1" and a1: "getAction ?o1 \<noteq> OTHER" and d1: "delta ?o1 = N"
    using assms(3) by (auto simp: delta_def)
  have f2: "isFilled ?o2" and a2: "getAction ?o2 \<noteq> OTHER" and d2: "delta ?o2 = - N"
    using assms(4) by (auto simp: delta_def)
  from onOrder_shape[OF f1 a1, of np nr s] obtain s1 ops1 where
    run1: "onOrderUpdate np nr s ?o1 = Done s1"
    and pt1: "posTrackers s1 = (posTrackers s)(i \<mapsto>
          ?t\<lparr>shares := shares ?t + N, basis := basis ?t @ ops1\<rparr>)"
    and tc1: "tradeCount s1 = tradeCount s + (if completes (shares ?t) N then 1 else 0)"
    by (auto simp: d1)
  have "posTrackers s1 i = Some (?t\<lparr>shares := shares ?t + N, basis := basis ?t @ ops1\<rparr>)"
    by (simp add: pt1)
  then have "trackerOf s1 i = ?t\<lparr>shares := shares ?t + N, basis := basis ?t @ ops1\<rparr>"
    by (simp add: trackerOf_def)
  then have sh1: "shares (trackerOf s1 i) = N"
    by (simp add: assms(2))
  have n1: "tradeCount s1 = tradeCount s"
    using tc1 assms(1,2) by (simp add: completes_def)
  from onOrder_shape[OF f2 a2, of np nr s1] obtain s2 ops2 where
    run2: "onOrderUpdate np nr s1 ?o2 = Done s2"
    and pt2: "posTrackers s2 = (posTrackers s1)(i \<mapsto>
          (trackerOf s1 i)\<lparr>shares := shares (trackerOf s1 i) + - N,
             basis := basis (trackerOf s1 i) @ ops2\<rparr>)"
    and tc2: "tradeCount s2 = tradeCount s1
          + (if completes (shares (trackerOf s1 i)) (- N) then 1 else 0)"
    by (auto simp: d2)
  have n2: "tradeCount s2 = tradeCount s + 1"
    using tc2 n1 sh1 assms(1) by (simp add: completes_def)
  have "processAll np nr s [?o1, ?o2] = Done s2"
    by (simp add: run1 run2)
  moreover have "posTrackers s2 i = Some ((trackerOf s1 i)\<lparr>shares := 0,
             basis := basis (trackerOf s1 i) @ ops2\<rparr>)"
    by (simp add: pt2 sh1)
  ultimately show ?thesis using n2 by (simp add: getShares_def)
qed

theorem flat_to_flat_witness:
  "(3::int) > 0 \<and> shares (trackerOf init ''XYZ'') = 0
   \<and> BUY \<in> {BUY, BUY_TO_COVER} \<and> SELL \<in> {SELL, SELL_SHORT}
   \<and> (\<exists>s' t'. processAll cashProfit cashReturn init
            [\<lparr>isFilled = True, getInstrument = ''XYZ'', getAction = BUY, getPrice = 10,
              getCommission = 1, getQuantity = 3\<rparr>,
             \<lparr>isFilled = True, getInstrument = ''XYZ'', getAction = SELL, getPrice = 20,
              getCommission = 1, getQuantity = 3\<rparr>] = Done s'
     \<and> tradeCount s' = 1 \<and> posTrackers s' ''XYZ'' = Some t' \<and> getShares t' = 0)"
  using flat_to_flat[of 3 init "''XYZ''" BUY SELL cashProfit cashReturn 10 1 20 1]
  by (simp add: trackerOf_def init_def newTracker_def tradeCount_def)

subsection \<open>Flip fills\<close>

text \<open>
  Claim C2. A fill that takes a long position below 0 issues exactly two tracker
  operations with the recorder between them: a sell of \<open>currentShares\<close> with commission
  \<open>commission / currentShares\<close>, then the recorder (one trade, read from the tracker
  as it is after the first leg, then the rebase \<open>update(0)\<close>), then a sell of
  \<open>|newShares|\<close> with commission \<open>commission / |newShares|\<close>; a fill that takes a short
  position above 0 does the same with buys. In particular, from 10 shares a sell of 15
  with commission \<open>c\<close> records one trade, ends at -5 shares, and its legs carry the
  commissions \<open>c / 10\<close> and \<open>c / 5\<close>.
\<close>

theorem flip_decomposition:
  "(shares t > 0 \<and> shares t + q < 0 \<longrightarrow>
      updatePosTracker np nr (s, t) p c q =
        Done (recordTrade s
                (np (t\<lparr>shares := 0,
                       basis := basis t @ [Sell (shares t) p (c / real_of_int (shares t))]\<rparr>) 0)
                (nr (t\<lparr>shares := 0,
                       basis := basis t @ [Sell (shares t) p (c / real_of_int (shares t))]\<rparr>) 0),
              t\<lparr>shares := shares t + q,
                basis := basis t @ [Sell (shares t) p (c / real_of_int (shares t)), Update 0,
                   Sell (- (shares t + q)) p (c / real_of_int (- (shares t + q)))]\<rparr>)
      \<and> tradeCount (fst (stateOf (updatePosTracker np nr (s, t) p c q))) = tradeCount s + 1)
   \<and> (shares t < 0 \<and> shares t + q > 0 \<longrightarrow>
      updatePosTracker np nr (s, t) p c q =
        Done (recordTrade s
                (np (t\<lparr>shares := 0,
                       basis := basis t @ [Buy (- shares t) p (c / real_of_int (- shares t))]\<rparr>) 0)
                (nr (t\<lparr>shares := 0,
                       basis := basis t @ [Buy (- shares t) p (c / real_of_int (- shares t))]\<rparr>) 0),
              t\<lparr>shares := shares t + q,
                basis := basis t @ [Buy (- shares t) p (c / real_of_int (- shares t)), Update 0,
                   Buy (shares t + q) p (c / real_of_int (shares t + q))]\<rparr>)
      \<and> tradeCount (fst (stateOf (updatePosTracker np nr (s, t) p c q))) = tradeCount s + 1)
   \<and> (shares t = 10 \<longrightarrow>
      updatePosTracker np nr (s, t) p c (- 15) =
        Done (recordTrade s
                (np (t\<lparr>shares := 0, basis := basis t @ [Sell 10 p (c / 10)]\<rparr>) 0)
                (nr (t\<lparr>shares := 0, basis := basis t @ [Sell 10 p (c / 10)]\<rparr>) 0),
              t\<lparr>shares := - 5,
                basis := basis t @ [Sell 10 p (c / 10), Update 0, Sell 5 p (c / 5)]\<rparr>)
      \<and> tradeCount (fst (stateOf (updatePosTracker np nr (s, t) p c (- 15)))) = tradeCount s + 1)"
proof (intro conjI impI)
  assume h: "shares t > 0 \<and> shares t + q < 0"
  then have a: "shares t > 0" and b: "shares t + q < 0" by simp_all
  show l: "updatePosTracker np nr (s, t) p c q =
        Done (recordTrade s
                (np (t\<lparr>shares := 0,
                       basis := basis t @ [Sell (shares t) p (c / real_of_int (shares t))]\<rparr>) 0)
                (nr (t\<lparr>shares := 0,
                       basis := basis t @ [Sell (shares t) p (c / real_of_int (shares t))]\<rparr>) 0),
              t\<lparr>shares := shares t + q,
                basis := basis t @ [Sell (shares t) p (c / real_of_int (shares t)), Update 0,
                   Sell (- (shares t + q)) p (c / real_of_int (- (shares t + q)))]\<rparr>)"
    by (simp add: upt_long_flip[OF a b] sell_def update_def Let_def)
  show "tradeCount (fst (stateOf (updatePosTracker np nr (s, t) p c q))) = tradeCount s + 1"
    by (simp add: l)
next
  assume h: "shares t < 0 \<and> shares t + q > 0"
  then have a: "shares t < 0" and b: "shares t + q > 0" by simp_all
  show l: "updatePosTracker np nr (s, t) p c q =
        Done (recordTrade s
                (np (t\<lparr>shares := 0,
                       basis := basis t @ [Buy (- shares t) p (c / real_of_int (- shares t))]\<rparr>) 0)
                (nr (t\<lparr>shares := 0,
                       basis := basis t @ [Buy (- shares t) p (c / real_of_int (- shares t))]\<rparr>) 0),
              t\<lparr>shares := shares t + q,
                basis := basis t @ [Buy (- shares t) p (c / real_of_int (- shares t)), Update 0,
                   Buy (shares t + q) p (c / real_of_int (shares t + q))]\<rparr>)"
    by (simp add: upt_short_flip[OF a b] buy_def update_def Let_def)
  show "tradeCount (fst (stateOf (updatePosTracker np nr (s, t) p c q))) = tradeCount s + 1"
    by (simp add: l)
next
  assume h: "shares t = 10"
  then have a: "shares t > 0" and b: "shares t + (- 15) < 0" by simp_all
  show l: "updatePosTracker np nr (s, t) p c (- 15) =
        Done (recordTrade s
                (np (t\<lparr>shares := 0, basis := basis t @ [Sell 10 p (c / 10)]\<rparr>) 0)
                (nr (t\<lparr>shares := 0, basis := basis t @ [Sell 10 p (c / 10)]\<rparr>) 0),
              t\<lparr>shares := - 5,
                basis := basis t @ [Sell 10 p (c / 10), Update 0, Sell 5 p (c / 5)]\<rparr>)"
    by (simp add: upt_long_flip[OF a b] sell_def update_def Let_def h)
  show "tradeCount (fst (stateOf (updatePosTracker np nr (s, t) p c (- 15)))) = tradeCount s + 1"
    by (simp add: l)
qed

theorem flip_decomposition_witness:
  "updatePosTracker cashProfit cashReturn (init, \<lparr>shares = 10, basis = [Buy 10 5 1]\<rparr>) 7 3 (- 15)
     = Done (recordTrade init (187 / 10) (187 / 1000),
             \<lparr>shares = - 5,
              basis = [Buy 10 5 1, Sell 10 7 (3 / 10), Update 0, Sell 5 7 (3 / 5)]\<rparr>)
   \<and> tradeCount (recordTrade init (187 / 10) (187 / 1000)) = 1
   \<and> all (recordTrade init (187 / 10) (187 / 1000)) = [187 / 10]
   \<and> updatePosTracker cashProfit cashReturn (init, \<lparr>shares = - 4, basis = [Sell 4 5 1]\<rparr>) 2 3 6
     = Done (recordTrade init (41 / 4) (41 / 400),
             \<lparr>shares = 2,
              basis = [Sell 4 5 1, Buy 4 2 (3 / 4), Update 0, Buy 2 2 (3 / 2)]\<rparr>)"
  using flip_decomposition[of "\<lparr>shares = 10, basis = [Buy 10 5 1]\<rparr>" "- 15"
          cashProfit cashReturn init 7 3]
        flip_decomposition[of "\<lparr>shares = - 4, basis = [Sell 4 5 1]\<rparr>" 6
          cashProfit cashReturn init 2 3]
  by (simp add: cashProfit_def cashReturn_def tradeCount_def recordTrade_def init_def)

subsection \<open>Post-condition of a fill and trade completion\<close>

lemma legBoundaries_appended:
  "trackerOf s' i = (trackerOf s i)\<lparr>shares := n, basis := basis (trackerOf s i) @ ops\<rparr>
   \<Longrightarrow> legBoundaries s s' i = legShares (shares (trackerOf s i)) ops"
  by (simp add: legBoundaries_def)

lemma count_list_pos_iff: "count_list xs a = 0 \<longleftrightarrow> a \<notin> set xs"
  by (induction xs) auto

text \<open>
  Claim C1. Let \<open>cur\<close> be the shares of instrument \<open>i\<close> before a well-formed filled order
  (recognised action, positive quantity) and \<open>delta\<close> its signed quantity. The update
  returns and the shares afterwards are \<open>cur + delta\<close>. A leg boundary is the state of
  the tracker after one of its buy or sell operations; the shares at the leg boundaries
  of the fill, read from the tracker (\<open>legBoundaries\<close>), are \<open>0\<close> and \<open>cur + delta\<close> when
  the fill takes an open position across 0, and \<open>cur + delta\<close> alone otherwise. At most
  one trade is recorded, and one is recorded exactly when \<open>cur + delta = 0\<close> or the fill
  crosses 0, that is, exactly when the shares are 0 at a leg boundary. For a sequence of
  such orders on \<open>i\<close>: the run returns, the shares move by the sum of the signed
  quantities, the leg boundaries are the ones the inputs determine (\<open>runBoundaries\<close>),
  the number of trades recorded is the number of leg boundaries with 0 shares, and
  none is recorded when the shares are 0 at no leg boundary.
\<close>

theorem fill_postcondition:
  assumes "wellFormed order" and "getInstrument order = i"
    and "\<forall>order\<in>set orders. wellFormed order \<and> getInstrument order = i"
  shows "\<exists>s1 s2.
       onOrderUpdate np nr s order = Done s1
     \<and> shares (trackerOf s1 i) = shares (trackerOf s i) + delta order
     \<and> legBoundaries s s1 i =
          (if (shares (trackerOf s i) > 0 \<and> shares (trackerOf s i) + delta order < 0)
              \<or> (shares (trackerOf s i) < 0 \<and> shares (trackerOf s i) + delta order > 0)
           then [0, shares (trackerOf s i) + delta order]
           else [shares (trackerOf s i) + delta order])
     \<and> tradeCount s1 \<le> tradeCount s + 1
     \<and> (tradeCount s1 = tradeCount s + 1 \<longleftrightarrow>
           shares (trackerOf s i) + delta order = 0
           \<or> (shares (trackerOf s i) > 0 \<and> shares (trackerOf s i) + delta order < 0)
           \<or> (shares (trackerOf s i) < 0 \<and> shares (trackerOf s i) + delta order > 0))
     \<and> (tradeCount s1 = tradeCount s + 1 \<longleftrightarrow> 0 \<in> set (legBoundaries s s1 i))
     \<and> (tradeCount s1 = tradeCount s \<longleftrightarrow> 0 \<notin> set (legBoundaries s s1 i))
     \<and> processAll np nr s orders = Done s2
     \<and> shares (trackerOf s2 i) = shares (trackerOf s i) + sum_list (map delta orders)
     \<and> legBoundaries s s2 i = runBoundaries (shares (trackerOf s i)) (map delta orders)
     \<and> tradeCount s2 = tradeCount s
          + count_list (runBoundaries (shares (trackerOf s i)) (map delta orders)) 0
     \<and> tradeCount s2 = tradeCount s + count_list (legBoundaries s s2 i) 0
     \<and> (0 \<notin> set (runBoundaries (shares (trackerOf s i)) (map delta orders))
           \<longrightarrow> tradeCount s2 = tradeCount s)
     \<and> (0 \<notin> set (legBoundaries s s2 i) \<longrightarrow> tradeCount s2 = tradeCount s)"
proof -
  let ?t = "trackerOf s i"
  from assms(1) have fl: "isFilled order" and act: "getAction order \<noteq> OTHER"
    by (simp_all add: wellFormed_def)
  have nz: "delta order \<noteq> 0" using assms(1) by (rule wellFormed_delta)
  from onOrder_shape[OF fl act, of np nr s] assms(2) nz
  obtain s1 ops1 where
    run1: "onOrderUpdate np nr s order = Done s1"
    and pt1: "posTrackers s1 = (posTrackers s)(i \<mapsto>
          ?t\<lparr>shares := shares ?t + delta order, basis := basis ?t @ ops1\<rparr>)"
    and fb1: "legShares (shares ?t) ops1 = fillBoundaries (shares ?t) (delta order)"
    and tc1: "tradeCount s1 = tradeCount s + (if completes (shares ?t) (delta order) then 1 else 0)"
    and cl1: "count_list (legShares (shares ?t) ops1) 0
            = (if completes (shares ?t) (delta order) then 1 else 0)"
    by auto
  have t1: "trackerOf s1 i = ?t\<lparr>shares := shares ?t + delta order, basis := basis ?t @ ops1\<rparr>"
    by (simp add: trackerOf_def pt1)
  have lb1: "legBoundaries s s1 i = legShares (shares ?t) ops1"
    using t1 by (rule legBoundaries_appended)
  have sh1: "shares (trackerOf s1 i) = shares ?t + delta order"
    by (simp add: t1)
  have bd1: "legBoundaries s s1 i =
          (if (shares ?t > 0 \<and> shares ?t + delta order < 0)
              \<or> (shares ?t < 0 \<and> shares ?t + delta order > 0)
           then [0, shares ?t + delta order]
           else [shares ?t + delta order])"
    by (simp add: lb1 fb1 fillBoundaries_def crosses_def)
  have cm: "completes (shares ?t) (delta order) \<longleftrightarrow>
           shares ?t + delta order = 0
           \<or> (shares ?t > 0 \<and> shares ?t + delta order < 0)
           \<or> (shares ?t < 0 \<and> shares ?t + delta order > 0)"
    using nz by (auto simp: completes_def)
  have in1: "tradeCount s1 = tradeCount s + 1 \<longleftrightarrow>
           shares ?t + delta order = 0
           \<or> (shares ?t > 0 \<and> shares ?t + delta order < 0)
           \<or> (shares ?t < 0 \<and> shares ?t + delta order > 0)"
    unfolding cm[symmetric] by (simp add: tc1)
  have c1: "tradeCount s1 = tradeCount s + count_list (legBoundaries s s1 i) 0"
    by (simp add: tc1 cl1 lb1)
  have le1: "count_list (legBoundaries s s1 i) 0 \<le> 1"
    by (simp add: cl1 lb1)
  have b1: "tradeCount s1 \<le> tradeCount s + 1"
    using c1 le1 by simp
  have i1: "tradeCount s1 = tradeCount s + 1 \<longleftrightarrow> 0 \<in> set (legBoundaries s s1 i)"
    using c1 le1 count_list_pos_iff[of "legBoundaries s s1 i" 0] by auto
  have i2: "tradeCount s1 = tradeCount s \<longleftrightarrow> 0 \<notin> set (legBoundaries s s1 i)"
    using c1 count_list_pos_iff[of "legBoundaries s s1 i" 0] by auto
  from processAll_shape[OF assms(3), of np nr s] obtain s2 ops2 where
    run2: "processAll np nr s orders = Done s2"
    and t2: "trackerOf s2 i = ?t\<lparr>shares := shares ?t + sum_list (map delta orders),
           basis := basis ?t @ ops2\<rparr>"
    and rb2: "legShares (shares ?t) ops2 = runBoundaries (shares ?t) (map delta orders)"
    and tc2: "tradeCount s2 = tradeCount s + count_list (legShares (shares ?t) ops2) 0"
    by blast
  have lb2: "legBoundaries s s2 i = legShares (shares ?t) ops2"
    using t2 by (rule legBoundaries_appended)
  have sh2: "shares (trackerOf s2 i) = shares ?t + sum_list (map delta orders)"
    by (simp add: t2)
  have bd2: "legBoundaries s s2 i = runBoundaries (shares ?t) (map delta orders)"
    by (simp add: lb2 rb2)
  have c2: "tradeCount s2 = tradeCount s + count_list (legBoundaries s s2 i) 0"
    by (simp add: tc2 lb2)
  have c2': "tradeCount s2 = tradeCount s
          + count_list (runBoundaries (shares ?t) (map delta orders)) 0"
    using c2 by (simp add: bd2)
  have z2: "0 \<notin> set (legBoundaries s s2 i) \<longrightarrow> tradeCount s2 = tradeCount s"
    using c2 count_list_pos_iff[of "legBoundaries s s2 i" 0] by auto
  have z2': "0 \<notin> set (runBoundaries (shares ?t) (map delta orders))
           \<longrightarrow> tradeCount s2 = tradeCount s"
    using z2 by (simp add: bd2)
  from run1 sh1 bd1 b1 in1 i1 i2 run2 sh2 bd2 c2' c2 z2' z2 show ?thesis by blast
qed

theorem fill_postcondition_witness:
  "wellFormed \<lparr>isFilled = True, getInstrument = ''XYZ'', getAction = BUY, getPrice = 5,
        getCommission = 1, getQuantity = 10\<rparr>
   \<and> wellFormed \<lparr>isFilled = True, getInstrument = ''XYZ'', getAction = SELL, getPrice = 7,
        getCommission = 3, getQuantity = 3\<rparr>
   \<and> wellFormed \<lparr>isFilled = True, getInstrument = ''XYZ'', getAction = SELL, getPrice = 7,
        getCommission = 3, getQuantity = 15\<rparr>
   \<and> (\<exists>s1 s2.
        onOrderUpdate cashProfit cashReturn init
          \<lparr>isFilled = True, getInstrument = ''XYZ'', getAction = BUY, getPrice = 5,
           getCommission = 1, getQuantity = 10\<rparr> = Done s1
      \<and> shares (trackerOf s1 ''XYZ'') = 10
      \<and> legBoundaries init s1 ''XYZ'' = [10]
      \<and> tradeCount s1 = 0
      \<and> processAll cashProfit cashReturn init
          [\<lparr>isFilled = True, getInstrument = ''XYZ'', getAction = BUY, getPrice = 5,
            getCommission = 1, getQuantity = 10\<rparr>,
           \<lparr>isFilled = True, getInstrument = ''XYZ'', getAction = SELL, getPrice = 7,
            getCommission = 3, getQuantity = 3\<rparr>,
           \<lparr>isFilled = True, getInstrument = ''XYZ'', getAction = SELL, getPrice = 7,
            getCommission = 3, getQuantity = 15\<rparr>] = Done s2
      \<and> shares (trackerOf s2 ''XYZ'') = - 8
      \<and> legBoundaries init s2 ''XYZ'' = [10, 7, 0, - 8]
      \<and> runBoundaries 0 [10, - 3, - 15] = [10, 7, 0, - 8]
      \<and> tradeCount s2 = 1)"
  using fill_postcondition[of
      "\<lparr>isFilled = True, getInstrument = ''XYZ'', getAction = BUY, getPrice = 5,
        getCommission = 1, getQuantity = 10\<rparr>" "''XYZ''"
      "[\<lparr>isFilled = True, getInstrument = ''XYZ'', getAction = BUY, getPrice = 5,
            getCommission = 1, getQuantity = 10\<rparr>,
           \<lparr>isFilled = True, getInstrument = ''XYZ'', getAction = SELL, getPrice = 7,
            getCommission = 3, getQuantity = 3\<rparr>,
           \<lparr>isFilled = True, getInstrument = ''XYZ'', getAction = SELL, getPrice = 7,
            getCommission = 3, getQuantity = 15\<rparr>]" cashProfit cashReturn init]
  by (simp add: wellFormed_def onOrderUpdate_def signedQuantity_def updatePosTracker_def
      onTracker_def updateTrades_def getShares_def buy_def sell_def update_def newTracker_def
      init_def trackerOf_def legBoundaries_def tradeCount_def fillBoundaries_def crosses_def
      Let_def)

subsection \<open>Sign agreement\<close>

lemma signsAgree_same: "sameAccumulators s s' \<Longrightarrow> signsAgree s' = signsAgree s"
  by (simp add: sameAccumulators_def signsAgree_def)

lemma signsAgree_recordTrade:
  assumes "signsAgree s" and "sgn b = sgn a"
  shows "signsAgree (recordTrade s a b)"
proof -
  consider (pos) "a > 0" | (neg) "a < 0" | (zero) "a = 0" by linarith
  then show ?thesis
  proof cases
    case pos
    with assms(2) have "b > 0" by (simp add: sgn_1_pos)
    with pos assms show ?thesis
      by (simp add: signsAgree_def recordTrade_def list_all2_appendI)
  next
    case neg
    with assms(2) have "b < 0" by (simp add: sgn_1_neg)
    with neg assms show ?thesis
      by (simp add: signsAgree_def recordTrade_def list_all2_appendI)
  next
    case zero
    with assms show ?thesis
      by (simp add: signsAgree_def recordTrade_def list_all2_appendI)
  qed
qed

lemma signsAgree_onOrderUpdate:
  assumes "\<forall>t. shares t = 0 \<longrightarrow> sgn (nr t 0) = sgn (np t 0)" and "signsAgree s"
  shows "signsAgree (stateOf (onOrderUpdate np nr s order))"
  using onOrderUpdate_accumulators[of s np nr order]
proof
  assume "sameAccumulators s (stateOf (onOrderUpdate np nr s order))"
  with assms(2) show ?thesis by (simp add: signsAgree_same)
next
  assume "\<exists>t1. shares t1 = 0
        \<and> sameAccumulators (recordTrade s (np t1 0) (nr t1 0)) (stateOf (onOrderUpdate np nr s order))"
  then obtain t1 where z: "shares t1 = 0"
    and sa: "sameAccumulators (recordTrade s (np t1 0) (nr t1 0)) (stateOf (onOrderUpdate np nr s order))"
    by blast
  from assms(1) z have "sgn (nr t1 0) = sgn (np t1 0)" by blast
  with assms(2) have "signsAgree (recordTrade s (np t1 0) (nr t1 0))"
    by (rule signsAgree_recordTrade)
  with sa show ?thesis by (simp add: signsAgree_same)
qed

lemma signsAgree_processAll:
  assumes "\<forall>t. shares t = 0 \<longrightarrow> sgn (nr t 0) = sgn (np t 0)"
  shows "signsAgree s \<Longrightarrow> signsAgree (stateOf (processAll np nr s orders))"
proof (induction orders arbitrary: s)
  case Nil
  then show ?case by simp
next
  case (Cons order orders)
  from assms Cons.prems have inv1: "signsAgree (stateOf (onOrderUpdate np nr s order))"
    by (rule signsAgree_onOrderUpdate)
  show ?case
  proof (cases "onOrderUpdate np nr s order")
    case (Done s1)
    with inv1 have "signsAgree s1" by simp
    from Cons.IH[OF this] Done show ?thesis by simp
  next
    case (Abort e s1)
    with inv1 show ?thesis by simp
  qed
qed

lemma profitSigns_same: "sameAccumulators s s' \<Longrightarrow> profitSigns s' = profitSigns s"
  by (simp add: sameAccumulators_def profitSigns_def)

lemma profitSigns_recordTrade: "profitSigns s \<Longrightarrow> profitSigns (recordTrade s a b)"
  by (simp add: profitSigns_def recordTrade_def)

lemma profitSigns_onOrderUpdate:
  "profitSigns s \<Longrightarrow> profitSigns (stateOf (onOrderUpdate np nr s order))"
  using onOrderUpdate_accumulators[of s np nr order]
  by (auto simp: profitSigns_same profitSigns_recordTrade)

lemma profitSigns_processAll:
  "profitSigns s \<Longrightarrow> profitSigns (stateOf (processAll np nr s orders))"
proof (induction orders arbitrary: s)
  case Nil
  then show ?case by simp
next
  case (Cons order orders)
  from Cons.prems have inv1: "profitSigns (stateOf (onOrderUpdate np nr s order))"
    by (rule profitSigns_onOrderUpdate)
  show ?case
  proof (cases "onOrderUpdate np nr s order")
    case (Done s1)
    with inv1 have "profitSigns s1" by simp
    from Cons.IH[OF this] Done show ?thesis by simp
  next
    case (Abort e s1)
    with inv1 show ?thesis by simp
  qed
qed

text \<open>
  Claim C4, spec-modelled. The tracker's \<open>getNetProfit\<close> and \<open>getReturn\<close> are not part
  of \<open>trades.py\<close>; the spec says of them that profit sign and return sign always agree,
  being derived from the same closing event. In every state reached from the fresh
  analyzer, every entry of \<open>profits\<close> is above 0 and every entry of \<open>losses\<close> is below
  0, whatever the tracker reports. Under the spec's property of the tracker (for a flat
  tracker at mark price 0, the return has the sign of the net profit), moreover:
  \<open>all\<close> and \<open>allReturns\<close> pair up with equal signs, so do \<open>profits\<close> with
  \<open>positiveReturns\<close> and \<open>losses\<close> with \<open>negativeReturns\<close>, every entry of
  \<open>positiveReturns\<close> is above 0 and every entry of \<open>negativeReturns\<close> below 0.
\<close>

theorem sign_agreement:
  "profitSigns (stateOf (processAll np nr init orders))
   \<and> (trackerSignsAgree np nr \<longrightarrow> signsAgree (stateOf (processAll np nr init orders)))"
proof (intro conjI impI)
  show "profitSigns (stateOf (processAll np nr init orders))"
    by (rule profitSigns_processAll) (simp add: profitSigns_def init_def)
next
  assume "trackerSignsAgree np nr"
  then have "\<forall>t. shares t = 0 \<longrightarrow> sgn (nr t 0) = sgn (np t 0)"
    by (simp add: trackerSignsAgree_def)
  then show "signsAgree (stateOf (processAll np nr init orders))"
    by (rule signsAgree_processAll) (simp add: signsAgree_def init_def)
qed

lemma cashReturn_sgn: "sgn (cashReturn t p) = sgn (cashProfit t p)"
  by (simp add: cashReturn_def)

theorem sign_agreement_witness:
  "(\<forall>t. sgn (cashReturn t 0) = sgn (cashProfit t 0))
   \<and> signsAgree (stateOf (processAll cashProfit cashReturn init
        [\<lparr>isFilled = True, getInstrument = ''XYZ'', getAction = BUY, getPrice = 5,
          getCommission = 1, getQuantity = 10\<rparr>,
         \<lparr>isFilled = True, getInstrument = ''XYZ'', getAction = SELL, getPrice = 7,
          getCommission = 3, getQuantity = 15\<rparr>,
         \<lparr>isFilled = True, getInstrument = ''XYZ'', getAction = BUY_TO_COVER, getPrice = 9,
          getCommission = 1, getQuantity = 5\<rparr>]))
   \<and> profits (stateOf (processAll cashProfit cashReturn init
        [\<lparr>isFilled = True, getInstrument = ''XYZ'', getAction = BUY, getPrice = 5,
          getCommission = 1, getQuantity = 10\<rparr>,
         \<lparr>isFilled = True, getInstrument = ''XYZ'', getAction = SELL, getPrice = 7,
          getCommission = 3, getQuantity = 15\<rparr>,
         \<lparr>isFilled = True, getInstrument = ''XYZ'', getAction = BUY_TO_COVER, getPrice = 9,
          getCommission = 1, getQuantity = 5\<rparr>])) = [187 / 10]
   \<and> losses (stateOf (processAll cashProfit cashReturn init
        [\<lparr>isFilled = True, getInstrument = ''XYZ'', getAction = BUY, getPrice = 5,
          getCommission = 1, getQuantity = 10\<rparr>,
         \<lparr>isFilled = True, getInstrument = ''XYZ'', getAction = SELL, getPrice = 7,
          getCommission = 3, getQuantity = 15\<rparr>,
         \<lparr>isFilled = True, getInstrument = ''XYZ'', getAction = BUY_TO_COVER, getPrice = 9,
          getCommission = 1, getQuantity = 5\<rparr>])) = [- (58 / 5)]"
  using sign_agreement[of cashProfit cashReturn
        "[\<lparr>isFilled = True, getInstrument = ''XYZ'', getAction = BUY, getPrice = 5,
          getCommission = 1, getQuantity = 10\<rparr>,
         \<lparr>isFilled = True, getInstrument = ''XYZ'', getAction = SELL, getPrice = 7,
          getCommission = 3, getQuantity = 15\<rparr>,
         \<lparr>isFilled = True, getInstrument = ''XYZ'', getAction = BUY_TO_COVER, getPrice = 9,
          getCommission = 1, getQuantity = 5\<rparr>]"]
  by (simp add: trackerSignsAgree_def cashReturn_sgn onOrderUpdate_def signedQuantity_def
      updatePosTracker_def
      onTracker_def updateTrades_def getShares_def buy_def sell_def update_def newTracker_def
      init_def Let_def cashProfit_def cashReturn_def)

end
